theory Spec2Isabelle
  imports Main "HOL-Library.Sublist" "HOL-Library.Multiset" "HOL-Library.Word"
begin

section \<open>The photo tagging page (src/pages/PhotoTagging/PhotoTaggingPage.tsx)\<close>

text \<open>
  The page is a React function component. Its \<open>useState\<close> cells become the fields of
  one record, every handler becomes a function from the state before to the state after,
  and what a handler does to the outside world (an HTTP request, a timer) is returned as
  a list of effects. What the outside world answers (the response to a request) is an
  argument of the function that continues after the \<open>await\<close>.
\<close>

subsection \<open>JavaScript values\<close>

text \<open>
  A JavaScript string is a sequence of UTF-16 code units: a list of 16-bit words. The
  string literals of the source are ASCII text and are written \<open>js ''...''\<close>. Comparison,
  concatenation, \<open>includes\<close> and \<open>split\<close> work code unit by code unit.

  \<open>trim\<close> strips the code points that ECMAScript calls WhiteSpace and LineTerminator
  from both ends; each of them is one code unit.

  \<open>toLowerCase\<close> is the Unicode case conversion of the JavaScript runtime. It is not
  code of this page and it is not defined here: the functions that call it take it as
  their first argument, a function from strings to strings, and everything proved
  about them holds whatever that function is.

  A route parameter of \<open>useParams\<close> has the type \<open>string | undefined\<close>: an option,
  with \<open>None\<close> for \<open>undefined\<close>.
\<close>

type_synonym code_unit = "16 word"

type_synonym jstring = "code_unit list"

definition js_char :: "char \<Rightarrow> code_unit" where
  "js_char c = of_nat (of_char c)"

definition js :: "string \<Rightarrow> jstring" where
  \<comment> \<open>a string literal of the source\<close>
  "js s = map js_char s"

definition falsy :: "jstring option \<Rightarrow> bool" where
  \<comment> \<open>\<open>!x\<close> for \<open>x : string | undefined\<close>: undefined and the empty string are falsy\<close>
  "falsy x = (case x of None \<Rightarrow> True | Some s \<Rightarrow> s = [])"

definition template :: "jstring option \<Rightarrow> jstring" where
  \<comment> \<open>\<open>${x}\<close> inside a template literal\<close>
  "template x = (case x of None \<Rightarrow> js ''undefined'' | Some s \<Rightarrow> s)"

definition orElse :: "jstring option \<Rightarrow> jstring \<Rightarrow> jstring" where
  \<comment> \<open>\<open>x || d\<close> for \<open>x : string | undefined\<close>\<close>
  "orElse x d = (case x of None \<Rightarrow> d | Some s \<Rightarrow> if s = [] then d else s)"

definition isWhiteSpace :: "code_unit \<Rightarrow> bool" where
  \<comment> \<open>WhiteSpace (TAB, VT, FF, ZWNBSP and the space separators of Unicode) and
      LineTerminator (LF, CR, LS, PS) of ECMAScript\<close>
  "isWhiteSpace c =
     ((0x0009 \<le> c \<and> c \<le> 0x000D) \<or> c = 0x0020 \<or> c = 0x00A0 \<or> c = 0x1680
      \<or> (0x2000 \<le> c \<and> c \<le> 0x200A) \<or> c = 0x2028 \<or> c = 0x2029 \<or> c = 0x202F
      \<or> c = 0x205F \<or> c = 0x3000 \<or> c = 0xFEFF)"

definition trim :: "jstring \<Rightarrow> jstring" where
  "trim s = rev (dropWhile isWhiteSpace (rev (dropWhile isWhiteSpace s)))"

fun includes_str :: "jstring \<Rightarrow> jstring \<Rightarrow> bool" where
  \<comment> \<open>\<open>hay.includes(needle)\<close> of String\<close>
  "includes_str [] needle = (needle = [])"
| "includes_str (c # cs) needle = (prefix needle (c # cs) \<or> includes_str cs needle)"

fun split :: "code_unit \<Rightarrow> jstring \<Rightarrow> jstring list" where
  \<comment> \<open>\<open>s.split(sep)\<close> for a separator of one code unit\<close>
  "split sep [] = [[]]"
| "split sep (c # cs) =
     (if c = sep then [] # split sep cs
      else (case split sep cs of [] \<Rightarrow> [[c]] | w # ws \<Rightarrow> (c # w) # ws))"

definition index1 :: "jstring list \<Rightarrow> jstring option" where
  \<comment> \<open>\<open>xs[1]\<close>: undefined when the array has fewer than two elements\<close>
  "index1 xs = (case xs of _ # y # _ \<Rightarrow> Some y | _ \<Rightarrow> None)"

subsection \<open>Data model\<close>

record UserDetails =
  id' :: jstring
  email :: jstring
  firstName :: jstring
  lastName :: jstring

record AttendeeForTagging =
  PK :: jstring
  SK :: jstring
  userId :: jstring
  role :: jstring
  joinDate :: "jstring option"
  organizationName :: jstring
  eventId :: jstring
  userDetails :: "UserDetails option"
  isLoadingDetails :: bool

text \<open>The component's state: one field for each \<open>useState\<close> cell that is written.\<close>

record page_state =
  searchTerm :: jstring
  attendees :: "AttendeeForTagging list"
  filteredAttendees :: "AttendeeForTagging list"
  loading :: bool
  error :: "jstring option"
  success :: "jstring option"
  selectedMembers :: "jstring list"
  submitting :: bool
  eventName :: jstring
  displayCount :: nat
  hasMore :: bool
  loadingMore :: bool

definition initialDisplayCount :: nat where
  "initialDisplayCount = 12"

definition initial_state :: page_state where
  "initial_state =
     \<lparr> searchTerm = [], attendees = [], filteredAttendees = [], loading = True,
       error = None, success = None, selectedMembers = [], submitting = False,
       eventName = [], displayCount = 12, hasMore = True, loadingMore = False \<rparr>"

text \<open>What a handler does to the outside world.\<close>

datatype timer_action = NavigateTo jstring | ClearLoadingMore

datatype effect =
    HttpPost jstring "jstring list"    \<comment> \<open>\<open>axiosInstance.post(url, { userIds })\<close>\<close>
  | SetTimeout nat timer_action      \<comment> \<open>\<open>setTimeout(action, milliseconds)\<close>\<close>
  | Navigate jstring                  \<comment> \<open>\<open>navigate(url)\<close>\<close>
  | FetchUserDetails jstring          \<comment> \<open>\<open>fetchUserDetails(userId)\<close> is started\<close>

fun isPost :: "effect \<Rightarrow> bool" where
  "isPost (HttpPost url body) = True"
| "isPost _ = False"

definition photoUrl :: "jstring option \<Rightarrow> jstring option \<Rightarrow> jstring option \<Rightarrow> jstring" where
  "photoUrl orgId evId photoId =
     (js ''/organizations/'') @ template orgId @ js ''/events/'' @ template evId
       @ js ''/photos/'' @ template photoId"

definition tagsUrl :: "jstring option \<Rightarrow> jstring option \<Rightarrow> jstring option \<Rightarrow> jstring" where
  "tagsUrl orgId evId photoId = photoUrl orgId evId photoId @ js ''/tags''"

subsection \<open>Selection: \<open>handleMemberSelect\<close>\<close>

definition toggle :: "jstring \<Rightarrow> jstring list \<Rightarrow> jstring list" where
  \<comment> \<open>the updater passed to \<open>setSelectedMembers\<close>\<close>
  "toggle uid prev = (if uid \<in> set prev then filter (\<lambda>i. i \<noteq> uid) prev else prev @ [uid])"

definition handleMemberSelect :: "jstring \<Rightarrow> page_state \<Rightarrow> page_state" where
  "handleMemberSelect uid s = s\<lparr>selectedMembers := toggle uid (selectedMembers s)\<rparr>"

subsection \<open>Submission: \<open>handleSubmitTags\<close>\<close>

text \<open>
  The outcome of the awaited POST: it resolves, or it throws an error \<open>err\<close> whose
  \<open>err.response?.data?.message\<close> is a string or undefined.
\<close>

datatype post_response = PostResolved | PostRejected "jstring option"

definition handleSubmitTags_request ::
  "jstring option \<Rightarrow> jstring option \<Rightarrow> jstring option \<Rightarrow> page_state \<Rightarrow> page_state \<times> effect list" where
  \<comment> \<open>the handler up to its \<open>await\<close>\<close>
  "handleSubmitTags_request orgId evId photoId s =
     (if selectedMembers s = [] then
        (s\<lparr>error := Some (js ''Please select at least one member to tag'')\<rparr>, [])
      else if falsy orgId \<or> falsy evId \<or> falsy photoId then
        (s\<lparr>error := Some (js ''Missing organization, event, or photo ID'')\<rparr>, [])
      else
        (s\<lparr>submitting := True, error := None, success := None\<rparr>,
         [HttpPost (tagsUrl orgId evId photoId) (selectedMembers s)]))"

definition handleSubmitTags_response ::
  "jstring option \<Rightarrow> jstring option \<Rightarrow> jstring option \<Rightarrow> post_response \<Rightarrow> page_state
     \<Rightarrow> page_state \<times> effect list" where
  \<comment> \<open>the handler after its \<open>await\<close>: the rest of the \<open>try\<close> block, or the \<open>catch\<close> block\<close>
  "handleSubmitTags_response orgId evId photoId r s =
     (case r of
        PostResolved \<Rightarrow>
          (s\<lparr>success := Some (js ''Members tagged successfully!''), submitting := False,
             selectedMembers := []\<rparr>,
           [SetTimeout 1500 (NavigateTo (photoUrl orgId evId photoId))])
      | PostRejected apiErrorMessage \<Rightarrow>
          (s\<lparr>error := Some (orElse apiErrorMessage (js ''Failed to tag members. Please try again.'')),
             submitting := False\<rparr>, []))"

definition handleSubmitTags ::
  "jstring option \<Rightarrow> jstring option \<Rightarrow> jstring option \<Rightarrow> post_response \<Rightarrow> page_state
     \<Rightarrow> page_state \<times> effect list" where
  \<comment> \<open>the whole handler, \<open>r\<close> being the outcome of the request if one is issued\<close>
  "handleSubmitTags orgId evId photoId r s =
     (case handleSubmitTags_request orgId evId photoId s of
        (s1, []) \<Rightarrow> (s1, [])
      | (s1, req # reqs) \<Rightarrow>
          (case handleSubmitTags_response orgId evId photoId r s1 of
             (s2, out) \<Rightarrow> (s2, req # reqs @ out)))"

subsection \<open>Loading: \<open>fetchUserDetails\<close> and \<open>fetchInitialAttendees\<close>\<close>




text \<open>
  A raw entry of the list that \<open>getEventAttendees\<close> resolves with: a string, an object
  (whose \<open>userId\<close> is a string or undefined), or anything else (null, a number, ...).
\<close>

datatype raw_attendee = RawString jstring | RawObject "jstring option" | RawOther

definition attendeeUserId :: "raw_attendee \<Rightarrow> jstring" where
  \<comment> \<open>the \<open>userId\<close> computed at the head of the \<open>map\<close> callback; \<open>split('#')[1]\<close> is
      defined whenever the string includes the separator (lemma \<open>index1_split\<close>)\<close>
  "attendeeUserId attIdInfo =
     (case attIdInfo of
        RawString t \<Rightarrow>
          if includes_str t (js ''#'')
          then (case index1 (split (js_char CHR ''#'') t) of Some u \<Rightarrow> u | None \<Rightarrow> [])
          else t
      | RawObject u \<Rightarrow> orElse u []
      | RawOther \<Rightarrow> [])"

definition initialAttendee :: "jstring \<Rightarrow> jstring \<Rightarrow> jstring \<Rightarrow> AttendeeForTagging" where
  \<comment> \<open>the object returned by the \<open>map\<close> callback\<close>
  "initialAttendee org ev uid =
     \<lparr> PK = js ''USER#'' @ uid, SK = js ''EVENT#'' @ ev, userId = uid, role = js ''MEMBER'',
       joinDate = None, organizationName = org, eventId = ev, userDetails = None,
       isLoadingDetails = True \<rparr>"

definition initialAttendeeList :: "jstring \<Rightarrow> jstring \<Rightarrow> raw_attendee list \<Rightarrow> AttendeeForTagging list" where
  "initialAttendeeList org ev attendeeIds =
     filter (\<lambda>att. userId att \<noteq> [])
       (map (\<lambda>attIdInfo. initialAttendee org ev (attendeeUserId attIdInfo)) attendeeIds)"

text \<open>
  The outcome of the event request (it throws, or resolves with a title that is a string
  or undefined) and of \<open>getEventAttendees\<close> (it throws, or resolves with a list, or with
  null or undefined).
\<close>

datatype event_response = EventRejected | EventResolved "jstring option"

datatype attendees_response = AttendeesRejected | AttendeesResolved "raw_attendee list option"

definition fetchInitialAttendees_start ::
  "jstring option \<Rightarrow> jstring option \<Rightarrow> jstring option \<Rightarrow> page_state \<Rightarrow> page_state \<times> bool" where
  \<comment> \<open>up to the first \<open>await\<close>; the flag says whether the function goes on\<close>
  "fetchInitialAttendees_start orgId evId photoId s =
     (if falsy orgId \<or> falsy evId \<or> falsy photoId then
        (s\<lparr>error := Some (js ''Missing organization, event, or photo ID''), loading := False\<rparr>, False)
      else (s\<lparr>loading := True, error := None\<rparr>, True))"

definition fetchInitialAttendees_event :: "event_response \<Rightarrow> page_state \<Rightarrow> page_state" where
  \<comment> \<open>the inner \<open>try\<close> and \<open>catch\<close>, after the event request\<close>
  "fetchInitialAttendees_event r s =
     s\<lparr>eventName := (case r of EventRejected \<Rightarrow> (js ''Event'') | EventResolved title \<Rightarrow> orElse title (js ''Event''))\<rparr>"

definition fetchInitialAttendees_attendees ::
  "jstring option \<Rightarrow> jstring option \<Rightarrow> attendees_response \<Rightarrow> page_state \<Rightarrow> page_state \<times> effect list" where
  \<comment> \<open>after \<open>await getEventAttendees(orgId, eventId)\<close>\<close>
  "fetchInitialAttendees_attendees orgId evId r s =
     (case r of
        AttendeesRejected \<Rightarrow>
          (s\<lparr>error := Some (js ''Failed to load event attendees. Please try again later.''),
             attendees := [], filteredAttendees := [], hasMore := False, loading := False\<rparr>, [])
      | AttendeesResolved attendeeIds \<Rightarrow>
          (case attendeeIds of
             None \<Rightarrow>
               (s\<lparr>attendees := [], filteredAttendees := [], hasMore := False, loading := False\<rparr>, [])
           | Some [] \<Rightarrow>
               (s\<lparr>attendees := [], filteredAttendees := [], hasMore := False, loading := False\<rparr>, [])
           | Some ids \<Rightarrow>
               (let l = initialAttendeeList (template orgId) (template evId) ids in
                (s\<lparr>attendees := l, filteredAttendees := l,
                   displayCount := min (length l) initialDisplayCount,
                   hasMore := (length l > initialDisplayCount), loading := False\<rparr>,
                 map (\<lambda>attendee. FetchUserDetails (userId attendee)) l))))"

definition fetchInitialAttendees ::
  "jstring option \<Rightarrow> jstring option \<Rightarrow> jstring option \<Rightarrow> event_response \<Rightarrow> attendees_response
     \<Rightarrow> page_state \<Rightarrow> page_state \<times> effect list" where
  \<comment> \<open>the whole function, given the outcomes of its two requests\<close>
  "fetchInitialAttendees orgId evId photoId er ar s =
     (case fetchInitialAttendees_start orgId evId photoId s of
        (s1, False) \<Rightarrow> (s1, [])
      | (s1, True) \<Rightarrow>
          fetchInitialAttendees_attendees orgId evId ar (fetchInitialAttendees_event er s1))"

definition setAttendeeDetails ::
  "jstring \<Rightarrow> UserDetails option \<Rightarrow> AttendeeForTagging list \<Rightarrow> AttendeeForTagging list" where
  \<comment> \<open>the updater passed to \<open>setAttendees\<close> when \<open>fetchUserDetails(uid)\<close> has resolved\<close>
  "setAttendeeDetails uid details prev =
     map (\<lambda>a. if userId a = uid then a\<lparr>userDetails := details, isLoadingDetails := False\<rparr> else a) prev"

definition detailsFetched :: "jstring \<Rightarrow> UserDetails option \<Rightarrow> page_state \<Rightarrow> page_state" where
  "detailsFetched uid details s = s\<lparr>attendees := setAttendeeDetails uid details (attendees s)\<rparr>"

subsection \<open>Filtering and paging: \<open>applyFilter\<close>, \<open>handleLoadMore\<close>, \<open>handleSearchChange\<close>\<close>

definition matchesSearch ::
  "(jstring \<Rightarrow> jstring) \<Rightarrow> jstring \<Rightarrow> AttendeeForTagging \<Rightarrow> bool" where
  \<comment> \<open>the callback of \<open>attendees.filter\<close>\<close>
  "matchesSearch toLowerCase searchLower attendee =
     (if isLoadingDetails attendee then includes_str (toLowerCase (userId attendee)) searchLower
      else
        (case userDetails attendee of
           Some d \<Rightarrow>
             includes_str (toLowerCase (firstName d @ js '' '' @ lastName d)) searchLower
               \<or> includes_str (toLowerCase (email d)) searchLower
         | None \<Rightarrow> includes_str (toLowerCase (userId attendee)) searchLower))"

definition applyFilter :: "(jstring \<Rightarrow> jstring) \<Rightarrow> page_state \<Rightarrow> page_state" where
  "applyFilter toLowerCase s =
     (let filtered =
        (if trim (searchTerm s) \<noteq> []
         then filter (matchesSearch toLowerCase (toLowerCase (searchTerm s))) (attendees s)
         else attendees s)
      in s\<lparr>filteredAttendees := filtered,
            displayCount := min (length filtered) initialDisplayCount,
            hasMore := (length filtered > initialDisplayCount)\<rparr>)"

definition visibleAttendees :: "page_state \<Rightarrow> AttendeeForTagging list" where
  \<comment> \<open>\<open>filteredAttendees.slice(0, displayCount)\<close>\<close>
  "visibleAttendees s = take (displayCount s) (filteredAttendees s)"

definition handleLoadMore :: "page_state \<Rightarrow> page_state \<times> effect list" where
  "handleLoadMore s =
     (let newDisplayCount = min (displayCount s + initialDisplayCount) (length (filteredAttendees s))
      in (s\<lparr>loadingMore := True, displayCount := newDisplayCount,
             hasMore := (newDisplayCount < length (filteredAttendees s))\<rparr>,
          [SetTimeout 200 ClearLoadingMore]))"

definition handleSearchChange :: "jstring \<Rightarrow> page_state \<Rightarrow> page_state" where
  "handleSearchChange v s = s\<lparr>searchTerm := v, displayCount := initialDisplayCount\<rparr>"

definition handleCancel :: "jstring option \<Rightarrow> jstring option \<Rightarrow> jstring option \<Rightarrow> effect list" where
  "handleCancel orgId evId photoId = [Navigate (photoUrl orgId evId photoId)]"

definition loadMoreRendered :: "page_state \<Rightarrow> bool" where
  \<comment> \<open>whether the rendering contains the Load More button: the third branch of
      \<open>loading ? ... : filteredAttendees.length === 0 ? ... : ...\<close> and there
      \<open>!searchTerm && hasMore\<close>\<close>
  "loadMoreRendered s =
     (\<not> loading s \<and> filteredAttendees s \<noteq> [] \<and> searchTerm s = [] \<and> hasMore s)"

subsection \<open>The page as a transition system\<close>

text \<open>
  One event is one uninterrupted piece of the component's code: a handler called from
  the rendering, an effect, the continuation of an asynchronous function after an
  \<open>await\<close> (with the outcome of the awaited request), or a timer. All state updates of
  one event are applied together. The Load More button can be clicked only when it is
  rendered and not disabled. Every other event is allowed in every state, in any order
  and with any outcome, which is more than the rendering and the network allow: what
  holds in every state of this system holds in every state of the page.
\<close>

datatype event =
    FetchStart                              \<comment> \<open>the effect that calls \<open>fetchInitialAttendees\<close>\<close>
  | EventFetched event_response
  | AttendeesFetched attendees_response
  | DetailsFetched jstring "UserDetails option"
  | FilterEffect                            \<comment> \<open>the effect that calls \<open>applyFilter\<close>\<close>
  | SearchChange jstring
  | LoadMore
  | LoadMoreTimer
  | MemberSelect jstring
  | SubmitTags
  | TagsPosted post_response
  | Cancel
  | CloseError
  | CloseSuccess

fun enabled :: "event \<Rightarrow> page_state \<Rightarrow> bool" where
  "enabled LoadMore s = (loadMoreRendered s \<and> \<not> loadingMore s)"
| "enabled e s = True"

fun react ::
  "(jstring \<Rightarrow> jstring) \<Rightarrow> jstring option \<Rightarrow> jstring option \<Rightarrow> jstring option \<Rightarrow> event
     \<Rightarrow> page_state \<Rightarrow> page_state \<times> effect list" where
  "react toLowerCase orgId evId photoId FetchStart s = (fst (fetchInitialAttendees_start orgId evId photoId s), [])"
| "react toLowerCase orgId evId photoId (EventFetched r) s = (fetchInitialAttendees_event r s, [])"
| "react toLowerCase orgId evId photoId (AttendeesFetched r) s = fetchInitialAttendees_attendees orgId evId r s"
| "react toLowerCase orgId evId photoId (DetailsFetched uid details) s = (detailsFetched uid details s, [])"
| "react toLowerCase orgId evId photoId FilterEffect s = (applyFilter toLowerCase s, [])"
| "react toLowerCase orgId evId photoId (SearchChange v) s = (handleSearchChange v s, [])"
| "react toLowerCase orgId evId photoId LoadMore s = handleLoadMore s"
| "react toLowerCase orgId evId photoId LoadMoreTimer s = (s\<lparr>loadingMore := False\<rparr>, [])"
| "react toLowerCase orgId evId photoId (MemberSelect uid) s = (handleMemberSelect uid s, [])"
| "react toLowerCase orgId evId photoId SubmitTags s = handleSubmitTags_request orgId evId photoId s"
| "react toLowerCase orgId evId photoId (TagsPosted r) s = handleSubmitTags_response orgId evId photoId r s"
| "react toLowerCase orgId evId photoId Cancel s = (s, handleCancel orgId evId photoId)"
| "react toLowerCase orgId evId photoId CloseError s = (s\<lparr>error := None\<rparr>, [])"
| "react toLowerCase orgId evId photoId CloseSuccess s = (s\<lparr>success := None\<rparr>, [])"

fun run ::
  "(jstring \<Rightarrow> jstring) \<Rightarrow> jstring option \<Rightarrow> jstring option \<Rightarrow> jstring option \<Rightarrow> event list
     \<Rightarrow> page_state \<times> effect list \<Rightarrow> (page_state \<times> effect list) option" where
  \<comment> \<open>the state and everything emitted after the events; \<open>None\<close> when an event is not enabled\<close>
  "run toLowerCase orgId evId photoId [] c = Some c"
| "run toLowerCase orgId evId photoId (e # es) (s, out) =
     (if enabled e s
      then (case react toLowerCase orgId evId photoId e s of
              (s', out') \<Rightarrow> run toLowerCase orgId evId photoId es (s', out @ out'))
      else None)"


definition window_ok :: "page_state \<Rightarrow> bool" where
  \<comment> \<open>while a search term is set, the window is the first page of the filtered list\<close>
  "window_ok t = (searchTerm t \<noteq> [] \<longrightarrow>
      min (displayCount t) (length (filteredAttendees t)) = min 12 (length (filteredAttendees t)))"

subsection \<open>The search as the specification words it\<close>




subsection \<open>Sample inputs\<close>

text \<open>
  A lowering function for the sample sessions: it lowers A to Z, as \<open>toLowerCase\<close>
  does on ASCII text, and keeps every other code unit.
\<close>

definition asciiLower :: "jstring \<Rightarrow> jstring" where
  "asciiLower s = map (\<lambda>c. if 0x41 \<le> c \<and> c \<le> 0x5A then c + 0x20 else c) s"

definition demo_raws :: "raw_attendee list" where
  "demo_raws = [RawString (js ''USER#u1''), RawObject None, RawString (js ''u2''), RawOther,
                RawObject (Some (js ''u3'')), RawString (js ''USER#''), RawString (js ''USER#u4#x'')]"



definition demo_state :: page_state where
  \<comment> \<open>the attendee list has been loaded and two members are selected\<close>
  "demo_state = initial_state\<lparr>loading := False, selectedMembers := [js ''u1'', js ''u2'']\<rparr>"

text \<open>Fourteen attendees, more than one page, and the state once they are loaded.\<close>

definition many_raws :: "raw_attendee list" where
  "many_raws = map (\<lambda>c. RawString (js [CHR ''u'', c])) ''abcdefghijklmn''"

definition many_attendees :: "AttendeeForTagging list" where
  "many_attendees = map (\<lambda>c. initialAttendee (js ''o1'') (js ''e1'') (js [CHR ''u'', c])) ''abcdefghijklmn''"

definition loaded_state :: page_state where
  "loaded_state =
     initial_state\<lparr>attendees := many_attendees, filteredAttendees := many_attendees,
       loading := False, eventName := js ''Gala'', displayCount := 12, hasMore := True\<rparr>"

text \<open>
  A session: the list is loaded, a second page is shown, then the user searches for
  \<open>UB\<close>; the Load More timer has not fired yet.
\<close>

definition search_events :: "event list" where
  "search_events =
     [FetchStart, EventFetched (EventResolved (Some (js ''Gala''))),
      AttendeesFetched (AttendeesResolved (Some many_raws)), FilterEffect, LoadMore,
      SearchChange (js ''UB''), FilterEffect]"

definition searching_state :: page_state where
  "searching_state =
     loaded_state\<lparr>searchTerm := js ''UB'', filteredAttendees := [initialAttendee (js ''o1'') (js ''e1'') (js ''ub'')],
       displayCount := 1, hasMore := False, loadingMore := True\<rparr>"

definition searching_out :: "effect list" where
  "searching_out = map (\<lambda>a. FetchUserDetails (userId a)) many_attendees @ [SetTimeout 200 ClearLoadingMore]"

text \<open>
  A session: the user selects u1, u2, unselects u1, selects u3, submits, the request
  succeeds, then selects u2 and submits again.
\<close>

definition select_events :: "event list" where
  "select_events =
     [MemberSelect (js ''u1''), MemberSelect (js ''u2''), MemberSelect (js ''u1''), MemberSelect (js ''u3''),
      SubmitTags, TagsPosted PostResolved, MemberSelect (js ''u2''), SubmitTags]"

definition selected_state :: page_state where
  "selected_state = initial_state\<lparr>selectedMembers := [js ''u2''], submitting := True\<rparr>"

definition selected_out :: "effect list" where
  "selected_out =
     [HttpPost (js ''/organizations/o1/events/e1/photos/p1/tags'') [js ''u2'', js ''u3''],
      SetTimeout 1500 (NavigateTo (js ''/organizations/o1/events/e1/photos/p1'')),
      HttpPost (js ''/organizations/o1/events/e1/photos/p1/tags'') [js ''u2'']]"




section \<open>Properties\<close>

subsection \<open>Strings\<close>

lemma of_char_bound: "(of_char c :: nat) < 65536"
proof -
  have "(of_char c :: nat) mod 256 < 256" by (rule mod_less_divisor) simp
  then have "(of_char c :: nat) < 256" by (simp only: of_char_mod_256)
  moreover have "(256 :: nat) < 65536" by simp
  ultimately show ?thesis by (rule less_trans)
qed

lemma unat_js_char: "unat (js_char c) = of_char c"
  using of_char_bound [of c] by (simp add: js_char_def unat_of_nat)

lemma js_char_inject [simp]: "js_char a = js_char b \<longleftrightarrow> a = b"
proof
  assume "js_char a = js_char b"
  then have "unat (js_char a) = unat (js_char b)" by simp
  then have "(of_char a :: nat) = of_char b" by (simp only: unat_js_char)
  then show "a = b" by simp
qed simp

lemma js_inject [simp]: "js a = js b \<longleftrightarrow> a = b"
  by (simp add: js_def inj_map_eq_map inj_def)

lemma js_Nil [simp]: "js s = [] \<longleftrightarrow> s = []" "[] = js s \<longleftrightarrow> s = []"
  by (auto simp: js_def)

lemma js_append: "js (a @ b) = js a @ js b"
  by (simp add: js_def)

lemma js_Cons: "js (c # cs) = js_char c # js cs"
  by (simp add: js_def)


lemma includes_str_single: "includes_str t [c] \<longleftrightarrow> c \<in> set t"
  by (induction t) auto

lemma split_not_Nil: "split sep t \<noteq> []"
  by (induction t) (auto split: list.splits)

lemma hd_split: "hd (split sep t) = takeWhile (\<lambda>c. c \<noteq> sep) t"
  by (induction t) (auto simp: split_not_Nil split: list.splits)

lemma split_first_sep: "sep \<notin> set p \<Longrightarrow> split sep (p @ sep # q) = p # split sep q"
  by (induction p) auto

lemma index1_split:
  assumes "sep \<notin> set p"
  shows "index1 (split sep (p @ sep # q)) = Some (takeWhile (\<lambda>c. c \<noteq> sep) q)"
proof -
  obtain w ws where w: "split sep q = w # ws"
    using split_not_Nil [of sep q] by (cases "split sep q") auto
  then have "w = takeWhile (\<lambda>c. c \<noteq> sep) q"
    using hd_split [of sep q] by simp
  with w assms show ?thesis
    by (simp add: split_first_sep index1_def)
qed


lemma attendeeUserId_plain:
  "js_char CHR ''#'' \<notin> set t \<Longrightarrow> attendeeUserId (RawString t) = t"
  by (simp add: attendeeUserId_def includes_str_single js_def)

lemma attendeeUserId_prefixed:
  assumes "js_char CHR ''#'' \<notin> set p"
  shows "attendeeUserId (RawString (p @ js ''#'' @ q)) = takeWhile (\<lambda>c. c \<noteq> js_char CHR ''#'') q"
  using index1_split [OF assms, of q]
  by (simp add: attendeeUserId_def includes_str_single js_def)

lemma attendeeUserId_one_separator:
  assumes "js_char CHR ''#'' \<notin> set p" and "js_char CHR ''#'' \<notin> set q"
  shows "attendeeUserId (RawString (p @ js ''#'' @ q)) = q"
  using attendeeUserId_prefixed [OF assms(1), of q] assms(2) by auto

lemma attendeeUserId_object:
  "attendeeUserId (RawObject (Some u)) = u" "attendeeUserId (RawObject None) = []"
  by (simp_all add: attendeeUserId_def orElse_def)

lemma initialAttendeeList_eq:
  "initialAttendeeList org ev raws
     = map (initialAttendee org ev) (filter (\<lambda>u. u \<noteq> []) (map attendeeUserId raws))"
  by (induction raws) (simp_all add: initialAttendeeList_def initialAttendee_def)

lemma userId_initialAttendeeList:
  "map userId (initialAttendeeList org ev raws) = filter (\<lambda>u. u \<noteq> []) (map attendeeUserId raws)"
  by (simp add: initialAttendeeList_eq initialAttendee_def comp_def)

subsection \<open>Submitting the selection\<close>

text \<open>
  Claim C1. When the selection is not empty and the organization, event and photo
  identifiers are all present (non-empty strings), \<open>handleSubmitTags\<close> issues exactly one
  POST request, to \<open>/organizations/{org}/events/{ev}/photos/{ph}/tags\<close>, with \<open>userIds\<close>
  equal to the selection; when the request succeeds the success message is shown, the
  selection is emptied, and a timer of 1500 ms that navigates to
  \<open>/organizations/{org}/events/{ev}/photos/{ph}\<close> is set.
\<close>

theorem handleSubmitTags_success:
  assumes "selectedMembers s \<noteq> []" and "org \<noteq> []" and "ev \<noteq> []" and "ph \<noteq> []"
  shows "filter isPost (snd (handleSubmitTags (Some org) (Some ev) (Some ph) r s))
           = [HttpPost (js ''/organizations/'' @ org @ js ''/events/'' @ ev @ js ''/photos/'' @ ph @ js ''/tags'')
                (selectedMembers s)]
       \<and> handleSubmitTags (Some org) (Some ev) (Some ph) PostResolved s
           = (s\<lparr>submitting := False, error := None,
                 success := Some (js ''Members tagged successfully!''), selectedMembers := []\<rparr>,
              [HttpPost (js ''/organizations/'' @ org @ js ''/events/'' @ ev @ js ''/photos/'' @ ph @ js ''/tags'')
                 (selectedMembers s),
               SetTimeout 1500 (NavigateTo (js ''/organizations/'' @ org @ js ''/events/'' @ ev @ js ''/photos/'' @ ph))])"
  using assms
  by (cases r) (simp_all add: handleSubmitTags_def handleSubmitTags_request_def
      handleSubmitTags_response_def falsy_def tagsUrl_def photoUrl_def template_def)

theorem handleSubmitTags_success_witness:
  "handleSubmitTags (Some (js ''o1'')) (Some (js ''e1'')) (Some (js ''p1'')) PostResolved demo_state
     = (demo_state\<lparr>submitting := False, error := None,
           success := Some (js ''Members tagged successfully!''), selectedMembers := []\<rparr>,
        [HttpPost (js ''/organizations/o1/events/e1/photos/p1/tags'') [js ''u1'', js ''u2''],
         SetTimeout 1500 (NavigateTo (js ''/organizations/o1/events/e1/photos/p1''))])"
  using handleSubmitTags_success [of demo_state "js ''o1''" "js ''e1''" "js ''p1''" PostResolved]
  by (simp add: demo_state_def flip: js_append)

text \<open>
  Claim C2, as the code has it. The two checks are made one after the other: with an
  empty selection the error is "Please select at least one member to tag"; with a
  selection that is not empty and an organization, event or photo identifier missing
  (undefined or empty) the error is "Missing organization, event, or photo ID". In both
  cases nothing else of the state changes and nothing is emitted, so no request is
  issued. The two messages differ.
\<close>

theorem handleSubmitTags_guards:
  "(selectedMembers s = [] \<longrightarrow>
      handleSubmitTags orgId evId photoId r s
        = (s\<lparr>error := Some (js ''Please select at least one member to tag'')\<rparr>, []))
   \<and> (selectedMembers s \<noteq> [] \<and> (falsy orgId \<or> falsy evId \<or> falsy photoId) \<longrightarrow>
      handleSubmitTags orgId evId photoId r s
        = (s\<lparr>error := Some (js ''Missing organization, event, or photo ID'')\<rparr>, []))
   \<and> (js ''Please select at least one member to tag'') \<noteq> js ''Missing organization, event, or photo ID''"
  by (simp add: handleSubmitTags_def handleSubmitTags_request_def)

theorem handleSubmitTags_guards_witness:
  "handleSubmitTags (Some (js ''o1'')) (Some (js ''e1'')) (Some (js ''p1'')) PostResolved initial_state
     = (initial_state\<lparr>error := Some (js ''Please select at least one member to tag'')\<rparr>, [])
   \<and> handleSubmitTags (Some (js ''o1'')) None (Some (js ''p1'')) PostResolved demo_state
     = (demo_state\<lparr>error := Some (js ''Missing organization, event, or photo ID'')\<rparr>, [])"
  using handleSubmitTags_guards [of initial_state "Some (js ''o1'')" "Some (js ''e1'')" "Some (js ''p1'')" PostResolved]
    handleSubmitTags_guards [of demo_state "Some (js ''o1'')" None "Some (js ''p1'')" PostResolved]
  by (simp add: demo_state_def initial_state_def falsy_def)

text \<open>
  Claim C2 as stated fails where both checks fail: with the organization identifier
  missing and the selection empty, the error shown is the one of the empty selection,
  not the one of the missing identifiers.
\<close>

theorem missing_ids_error_counterexample:
  "falsy None \<and> selectedMembers initial_state = []
   \<and> error (fst (handleSubmitTags None (Some (js ''e1'')) (Some (js ''p1'')) PostResolved initial_state))
       = Some (js ''Please select at least one member to tag'')
   \<and> error (fst (handleSubmitTags None (Some (js ''e1'')) (Some (js ''p1'')) PostResolved initial_state))
       \<noteq> Some (js ''Missing organization, event, or photo ID'')"
  by (simp add: handleSubmitTags_def handleSubmitTags_request_def initial_state_def falsy_def)

text \<open>
  Claim C3. When the request of a submission fails, the error shown is the message of
  the response when there is one (\<open>err.response?.data?.message\<close> is a string and not the
  empty one, which \<open>||\<close> takes as absent) and "Failed to tag members. Please try again."
  otherwise; the selection is as it was before, and so is every other field of the
  state but \<open>submitting\<close>, \<open>success\<close> and \<open>error\<close>.
\<close>

theorem handleSubmitTags_failure:
  assumes "selectedMembers s \<noteq> []" and "\<not> falsy orgId" and "\<not> falsy evId" and "\<not> falsy photoId"
  shows "handleSubmitTags orgId evId photoId (PostRejected apiErrorMessage) s
           = (s\<lparr>submitting := False, success := None,
                 error := Some (case apiErrorMessage of
                                  None \<Rightarrow> (js ''Failed to tag members. Please try again.'')
                                | Some m \<Rightarrow> if m = [] then (js ''Failed to tag members. Please try again.'') else m)\<rparr>,
              [HttpPost (tagsUrl orgId evId photoId) (selectedMembers s)])
       \<and> selectedMembers (fst (handleSubmitTags orgId evId photoId (PostRejected apiErrorMessage) s))
           = selectedMembers s"
  using assms
  by (simp add: handleSubmitTags_def handleSubmitTags_request_def
      handleSubmitTags_response_def orElse_def)

theorem handleSubmitTags_failure_witness:
  "error (fst (handleSubmitTags (Some (js ''o1'')) (Some (js ''e1'')) (Some (js ''p1'')) (PostRejected (Some (js ''X''))) demo_state))
     = Some (js ''X'')
   \<and> error (fst (handleSubmitTags (Some (js ''o1'')) (Some (js ''e1'')) (Some (js ''p1'')) (PostRejected None) demo_state))
     = Some (js ''Failed to tag members. Please try again.'')
   \<and> selectedMembers (fst (handleSubmitTags (Some (js ''o1'')) (Some (js ''e1'')) (Some (js ''p1'')) (PostRejected (Some (js ''X''))) demo_state))
     = [js ''u1'', js ''u2'']"
  using handleSubmitTags_failure [of demo_state "Some (js ''o1'')" "Some (js ''e1'')" "Some (js ''p1'')" "Some (js ''X'')"]
    handleSubmitTags_failure [of demo_state "Some (js ''o1'')" "Some (js ''e1'')" "Some (js ''p1'')" None]
  by (simp add: demo_state_def falsy_def)

subsection \<open>Building the attendee list\<close>

text \<open>
  Claim C4 holds for a string without \<open>#\<close> (lemma \<open>attendeeUserId_plain\<close>), for a
  prefixed string with one \<open>#\<close> (lemma \<open>attendeeUserId_one_separator\<close>), for an object
  (lemma \<open>attendeeUserId_object\<close>) and for the entries that are dropped (lemma
  \<open>initialAttendeeList_eq\<close>). It fails for a prefixed string whose identifier contains
  \<open>#\<close>: the code takes the second element of \<open>split('#')\<close>, not the suffix after the
  separator, so the identifier is cut at its first \<open>#\<close>. The entry \<open>USER#u4#x\<close>, the
  key that the page itself would build for the user \<open>u4#x\<close>, gives \<open>u4\<close>, and so does
  the entry of the user \<open>u4#y\<close>.
\<close>

theorem attendeeUserId_truncated:
  "attendeeUserId (RawString (js ''USER#u4#x'')) = js ''u4''
   \<and> attendeeUserId (RawString (js ''USER#u4#x'')) \<noteq> js ''u4#x''
   \<and> PK (initialAttendee (js ''o1'') (js ''e1'') (js ''u4#x'')) = js ''USER#u4#x''
   \<and> attendeeUserId (RawString (js ''USER#u4#y'')) = attendeeUserId (RawString (js ''USER#u4#x''))"
  by code_simp

text \<open>
  Claim C5, as the code has it. The attendee list is not deduplicated: an identifier
  that is not empty occurs in it as often as it is the identifier of a raw entry, and
  the empty identifier never occurs. So the identifiers of the list are without
  duplicates exactly when the non-empty identifiers of the raw entries are.
\<close>

theorem attendee_list_entries:
  "(u \<noteq> [] \<longrightarrow> count_list (map userId (initialAttendeeList org ev raws)) u
                  = count_list (map attendeeUserId raws) u)
   \<and> count_list (map userId (initialAttendeeList org ev raws)) [] = 0
   \<and> (distinct (map userId (initialAttendeeList org ev raws))
        \<longleftrightarrow> distinct (filter (\<lambda>u. u \<noteq> []) (map attendeeUserId raws)))"
proof -
  have "count_list (filter (\<lambda>u. u \<noteq> []) xs) v = (if v = [] then 0 else count_list xs v)" for xs :: "jstring list" and v :: jstring
    by (induction xs) auto
  then show ?thesis
    by (simp add: userId_initialAttendeeList)
qed

theorem attendee_list_entries_witness:
  "count_list (map userId (initialAttendeeList (js ''o1'') (js ''e1'')
       [RawString (js ''u1''), RawObject None, RawString (js ''USER#u1'')])) (js ''u1'') = 2
   \<and> \<not> distinct (map userId (initialAttendeeList (js ''o1'') (js ''e1'')
       [RawString (js ''u1''), RawObject None, RawString (js ''USER#u1'')]))
   \<and> distinct (map userId (initialAttendeeList (js ''o1'') (js ''e1'') demo_raws))"
proof -
  have ids: "attendeeUserId (RawString (js ''u1'')) = js ''u1''"
    "attendeeUserId (RawObject None) = []"
    "attendeeUserId (RawString (js ''USER#u1'')) = js ''u1''"
    "map attendeeUserId demo_raws = [js ''u1'', [], js ''u2'', [], js ''u3'', [], js ''u4'']"
    by code_simp+
  show ?thesis
    using attendee_list_entries [of "js ''u1''" "js ''o1''" "js ''e1''"
        "[RawString (js ''u1''), RawObject None, RawString (js ''USER#u1'')]"]
      attendee_list_entries [of "js ''u1''" "js ''o1''" "js ''e1''" demo_raws]
    by (simp add: ids)
qed

text \<open>
  Claim C5 as stated fails on a raw list that names one user twice: both entries are
  kept.
\<close>

theorem duplicate_attendee_counterexample:
  "map userId (initialAttendeeList (js ''o1'') (js ''e1'') [RawString (js ''u1''), RawString (js ''USER#u1'')])
     = [js ''u1'', js ''u1'']
   \<and> \<not> distinct (map userId (initialAttendeeList (js ''o1'') (js ''e1'')
         [RawString (js ''u1''), RawString (js ''USER#u1'')]))"
  by code_simp

subsection \<open>Searching\<close>




subsection \<open>Paging\<close>

lemma handleLoadMore_fields:
  "filteredAttendees (fst (handleLoadMore t)) = filteredAttendees t"
  "displayCount (fst (handleLoadMore t)) = min (displayCount t + 12) (length (filteredAttendees t))"
  "hasMore (fst (handleLoadMore t))
     = (min (displayCount t + 12) (length (filteredAttendees t)) < length (filteredAttendees t))"
  by (simp_all add: handleLoadMore_def Let_def initialDisplayCount_def)

lemma loadMore_iterated:
  "filteredAttendees (((\<lambda>t. fst (handleLoadMore t)) ^^ k) s) = filteredAttendees s
   \<and> displayCount (((\<lambda>t. fst (handleLoadMore t)) ^^ Suc k) s)
       = min (displayCount s + 12 * Suc k) (length (filteredAttendees s))
   \<and> hasMore (((\<lambda>t. fst (handleLoadMore t)) ^^ Suc k) s)
       = (displayCount s + 12 * Suc k < length (filteredAttendees s))"
proof (induction k)
  case 0
  show ?case by (auto simp: handleLoadMore_fields)
next
  case (Suc k)
  let ?t = "((\<lambda>t. fst (handleLoadMore t)) ^^ Suc k) s"
  have step: "((\<lambda>t. fst (handleLoadMore t)) ^^ Suc (Suc k)) s = fst (handleLoadMore ?t)"
    by simp
  from Suc have f: "filteredAttendees ?t = filteredAttendees s"
    by (simp add: handleLoadMore_fields)
  from Suc have d: "displayCount ?t = min (displayCount s + 12 * Suc k) (length (filteredAttendees s))"
    by blast
  show ?case
    unfolding step handleLoadMore_fields f d by auto
qed

lemma attendees_fetched_list:
  assumes "ids \<noteq> []"
  shows "fetchInitialAttendees_attendees orgId evId (AttendeesResolved (Some ids)) s
           = (s\<lparr>attendees := initialAttendeeList (template orgId) (template evId) ids,
                 filteredAttendees := initialAttendeeList (template orgId) (template evId) ids,
                 displayCount := min (length (initialAttendeeList (template orgId) (template evId) ids)) 12,
                 hasMore := (12 < length (initialAttendeeList (template orgId) (template evId) ids)),
                 loading := False\<rparr>,
              map (\<lambda>a. FetchUserDetails (userId a))
                (initialAttendeeList (template orgId) (template evId) ids))"
  using assms
  by (cases ids) (simp_all add: fetchInitialAttendees_attendees_def Let_def initialDisplayCount_def)

lemma fetchInitialAttendees_window:
  assumes "\<not> falsy orgId" and "\<not> falsy evId" and "\<not> falsy photoId"
    and "fetchInitialAttendees orgId evId photoId er ar s0 = (s, out)"
  shows "filteredAttendees s = attendees s
       \<and> hasMore s = (12 < length (attendees s))
       \<and> (attendees s = [] \<or> displayCount s = min (length (attendees s)) 12)"
  using assms
  by (auto simp: fetchInitialAttendees_def fetchInitialAttendees_start_def
      fetchInitialAttendees_event_def fetchInitialAttendees_attendees_def Let_def
      initialDisplayCount_def
      split: attendees_response.splits option.splits list.splits)

lemma many_ok: "initialAttendeeList (js ''o1'') (js ''e1'') many_raws = many_attendees"
  by code_simp

lemma loaded:
  "fetchInitialAttendees (Some (js ''o1'')) (Some (js ''e1'')) (Some (js ''p1'')) (EventResolved (Some (js ''Gala'')))
     (AttendeesResolved (Some many_raws)) initial_state
   = (loaded_state, map (\<lambda>a. FetchUserDetails (userId a)) many_attendees)"
proof -
  have ne: "many_raws \<noteq> []" by (simp add: many_raws_def)
  have n: "length many_attendees = 14" by (simp add: many_attendees_def)
  have t: "template (Some (js ''o1'')) = js ''o1''" "template (Some (js ''e1'')) = js ''e1''"
    by (simp_all add: template_def)
  show ?thesis
    unfolding fetchInitialAttendees_def fetchInitialAttendees_start_def
      fetchInitialAttendees_event_def attendees_fetched_list [OF ne] t many_ok
    by (simp add: n falsy_def orElse_def initial_state_def loaded_state_def)
qed

text \<open>
  Claim C7. After \<open>fetchInitialAttendees\<close> (with the three identifiers present, whatever
  the two requests answer) the visible window is the first \<open>min N 12\<close> entries of the
  attendee list of length \<open>N\<close>, and \<open>hasMore\<close> says whether \<open>N > 12\<close>. In any
  state, \<open>handleLoadMore\<close> sets \<open>displayCount\<close> to the old value plus 12, capped at
  the length of the filtered list, and \<open>hasMore\<close> to whether the new value is below
  that length. So after \<open>k\<close> Load More actions on the loaded list the window is its
  first \<open>min N (12 (k + 1))\<close> entries, and \<open>hasMore\<close> says whether \<open>12 (k + 1) < N\<close>.
\<close>

theorem paging:
  assumes "\<not> falsy orgId" and "\<not> falsy evId" and "\<not> falsy photoId"
    and "fetchInitialAttendees orgId evId photoId er ar s0 = (s, out)"
  shows "visibleAttendees s = take (min (length (attendees s)) 12) (attendees s)
       \<and> hasMore s = (12 < length (attendees s))
       \<and> displayCount (fst (handleLoadMore t)) = min (displayCount t + 12) (length (filteredAttendees t))
       \<and> hasMore (fst (handleLoadMore t))
           = (displayCount (fst (handleLoadMore t)) < length (filteredAttendees t))
       \<and> visibleAttendees (((\<lambda>t. fst (handleLoadMore t)) ^^ k) s)
           = take (min (length (attendees s)) (12 * (k + 1))) (attendees s)
       \<and> hasMore (((\<lambda>t. fst (handleLoadMore t)) ^^ k) s) = (12 * (k + 1) < length (attendees s))"
proof -
  note init = fetchInitialAttendees_window [OF assms]
  then have f: "filteredAttendees s = attendees s" and h: "hasMore s = (12 < length (attendees s))"
    and d: "attendees s = [] \<or> displayCount s = min (length (attendees s)) 12"
    by blast+
  have v0: "visibleAttendees s = take (min (length (attendees s)) 12) (attendees s)"
    using d by (auto simp: visibleAttendees_def f)
  have vk: "visibleAttendees (((\<lambda>t. fst (handleLoadMore t)) ^^ k) s)
              = take (min (length (attendees s)) (12 * (k + 1))) (attendees s)"
  proof (cases k)
    case 0
    with v0 show ?thesis by simp
  next
    case (Suc j)
    show ?thesis
      unfolding visibleAttendees_def Suc
      using loadMore_iterated [of "Suc j" s] loadMore_iterated [of j s] d
      by (auto simp: f min_def)
  qed
  have hk: "hasMore (((\<lambda>t. fst (handleLoadMore t)) ^^ k) s) = (12 * (k + 1) < length (attendees s))"
  proof (cases k)
    case 0
    with h show ?thesis by simp
  next
    case (Suc j)
    show ?thesis
      unfolding Suc
      using loadMore_iterated [of j s] d
      by (auto simp: f min_def)
  qed
  show ?thesis
    using v0 h vk hk by (simp add: handleLoadMore_fields)
qed

theorem paging_witness:
  "fetchInitialAttendees (Some (js ''o1'')) (Some (js ''e1'')) (Some (js ''p1'')) (EventResolved (Some (js ''Gala'')))
     (AttendeesResolved (Some many_raws)) initial_state
     = (loaded_state, map (\<lambda>a. FetchUserDetails (userId a)) many_attendees)
   \<and> length (attendees loaded_state) = 14
   \<and> visibleAttendees loaded_state = take 12 many_attendees
   \<and> hasMore loaded_state
   \<and> displayCount (fst (handleLoadMore loaded_state)) = 14
   \<and> visibleAttendees (fst (handleLoadMore loaded_state)) = many_attendees
   \<and> \<not> hasMore (fst (handleLoadMore loaded_state))"
proof -
  have f: "\<not> falsy (Some (js ''o1''))" "\<not> falsy (Some (js ''e1''))" "\<not> falsy (Some (js ''p1''))"
    by (simp_all add: falsy_def)
  have n: "length (attendees loaded_state) = 14" "attendees loaded_state = many_attendees"
    "filteredAttendees loaded_state = many_attendees" "displayCount loaded_state = 12"
    by (simp_all add: loaded_state_def many_attendees_def)
  show ?thesis
    using paging [OF f loaded, of loaded_state "Suc 0"] loaded n
    by simp
qed

subsection \<open>Filling in the details\<close>










subsection \<open>Invariants of the page\<close>

lemma run_append:
  "run toLowerCase orgId evId photoId (es @ fs) c
     = (case run toLowerCase orgId evId photoId es c of None \<Rightarrow> None | Some c' \<Rightarrow> run toLowerCase orgId evId photoId fs c')"
proof (induction es arbitrary: c)
  case Nil
  show ?case by simp
next
  case (Cons e es)
  obtain s out where c: "c = (s, out)" by (cases c)
  show ?case
    unfolding c using Cons.IH by (simp split: prod.splits)
qed

lemma run_invariant:
  assumes "run toLowerCase orgId evId photoId evs (s0, out0) = Some (s, out)"
    and "I s0 out0"
    and step: "\<And>e t o1 t' o2. I t o1 \<Longrightarrow> enabled e t \<Longrightarrow> react toLowerCase orgId evId photoId e t = (t', o2)
                 \<Longrightarrow> I t' (o1 @ o2)"
  shows "I s out"
  using assms(1,2)
proof (induction evs arbitrary: s0 out0)
  case Nil
  then show ?case by simp
next
  case (Cons e es)
  from Cons.prems(1) have en: "enabled e s0"
    by (simp split: if_splits)
  obtain t' o2 where r: "react toLowerCase orgId evId photoId e s0 = (t', o2)"
    by (cases "react toLowerCase orgId evId photoId e s0")
  with Cons.prems(1) en have "run toLowerCase orgId evId photoId es (t', out0 @ o2) = Some (s, out)"
    by simp
  moreover have "I t' (out0 @ o2)"
    using step [OF Cons.prems(2) en r] .
  ultimately show ?case by (rule Cons.IH)
qed

lemma react_window:
  assumes "react toLowerCase orgId evId photoId e t = (t', o2)" and "enabled e t" and "window_ok t"
  shows "window_ok t'"
  using assms
  by (cases e)
    (auto simp: window_ok_def fetchInitialAttendees_start_def fetchInitialAttendees_event_def
      fetchInitialAttendees_attendees_def detailsFetched_def applyFilter_def Let_def
      handleSearchChange_def handleLoadMore_def handleMemberSelect_def loadMoreRendered_def
      handleSubmitTags_request_def handleSubmitTags_response_def initialDisplayCount_def
      split: attendees_response.splits option.splits list.splits post_response.splits if_splits)

lemma take_min_length: "take (min n (length xs)) xs = take n xs"
  by (simp add: min_def)

lemma search_run:
  "run asciiLower (Some (js ''o1'')) (Some (js ''e1'')) (Some (js ''p1'')) search_events (initial_state, [])
     = Some (searching_state, searching_out)"
  by code_simp

text \<open>
  Claim C9. In every state that the page reaches with a search term that is not empty,
  the Load More button is not rendered, whatever \<open>hasMore\<close> is, so that a Load More
  action is not possible there; and the visible window is the first \<open>min L 12\<close>
  entries of the filtered list of length \<open>L\<close>.
\<close>

theorem no_load_more_while_searching:
  assumes "run toLowerCase orgId evId photoId evs (initial_state, []) = Some (s, out)"
    and "searchTerm s \<noteq> []"
  shows "\<not> loadMoreRendered s
       \<and> run toLowerCase orgId evId photoId (evs @ [LoadMore]) (initial_state, []) = None
       \<and> visibleAttendees s = take (min (length (filteredAttendees s)) 12) (filteredAttendees s)"
proof -
  have "window_ok s"
  proof (rule run_invariant [OF assms(1), where I = "\<lambda>t o1. window_ok t"])
    show "window_ok initial_state"
      by (simp add: window_ok_def initial_state_def)
  next
    fix e t o1 t' o2
    assume "window_ok t" and "enabled e t" and "react toLowerCase orgId evId photoId e t = (t', o2)"
    then show "window_ok t'"
      using react_window by blast
  qed
  with assms(2)
  have m: "min (displayCount s) (length (filteredAttendees s)) = min 12 (length (filteredAttendees s))"
    by (simp add: window_ok_def)
  have "take (displayCount s) (filteredAttendees s) = take 12 (filteredAttendees s)"
    using take_min_length [of "displayCount s" "filteredAttendees s"]
      take_min_length [of 12 "filteredAttendees s"] m
    by simp
  then have v: "visibleAttendees s = take (min (length (filteredAttendees s)) 12) (filteredAttendees s)"
    using take_min_length [of 12 "filteredAttendees s"]
    by (simp add: visibleAttendees_def min.commute)
  have r: "\<not> loadMoreRendered s"
    using assms(2) by (simp add: loadMoreRendered_def)
  then have "run toLowerCase orgId evId photoId (evs @ [LoadMore]) (initial_state, []) = None"
    using assms(1) by (simp add: run_append)
  with v r show ?thesis by blast
qed

theorem no_load_more_while_searching_witness:
  "run asciiLower (Some (js ''o1'')) (Some (js ''e1'')) (Some (js ''p1'')) search_events (initial_state, [])
     = Some (searching_state, searching_out)
   \<and> searchTerm searching_state \<noteq> []
   \<and> \<not> loadMoreRendered searching_state
   \<and> run asciiLower (Some (js ''o1'')) (Some (js ''e1'')) (Some (js ''p1'')) (search_events @ [LoadMore]) (initial_state, []) = None
   \<and> visibleAttendees searching_state = [initialAttendee (js ''o1'') (js ''e1'') (js ''ub'')]"
proof -
  have s: "searchTerm searching_state \<noteq> []"
    by (simp add: searching_state_def)
  show ?thesis
    using no_load_more_while_searching [OF search_run s] search_run s
    by (simp add: searching_state_def)
qed

lemma toggle_distinct: "distinct prev \<Longrightarrow> distinct (toggle uid prev)"
  by (simp add: toggle_def)

lemma fold_toggle_distinct: "distinct prev \<Longrightarrow> distinct (fold toggle uids prev)"
  by (induction uids arbitrary: prev) (simp_all add: toggle_distinct)

lemma react_selectedMembers:
  assumes "react toLowerCase orgId evId photoId e t = (t', o2)"
  shows "selectedMembers t' = selectedMembers t
         \<or> selectedMembers t' = []
         \<or> (\<exists>uid. selectedMembers t' = toggle uid (selectedMembers t))"
  using assms
  by (cases e)
    (auto simp: fetchInitialAttendees_start_def fetchInitialAttendees_event_def
      fetchInitialAttendees_attendees_def detailsFetched_def applyFilter_def Let_def
      handleSearchChange_def handleLoadMore_def handleMemberSelect_def
      handleSubmitTags_request_def handleSubmitTags_response_def
      split: attendees_response.splits option.splits list.splits post_response.splits if_splits)

lemma react_posts:
  assumes "react toLowerCase orgId evId photoId e t = (t', o2)" and "HttpPost url ids \<in> set o2"
  shows "ids = selectedMembers t"
  using assms
  by (cases e)
    (auto simp: fetchInitialAttendees_attendees_def Let_def handleLoadMore_def
      handleSubmitTags_request_def handleSubmitTags_response_def handleCancel_def
      split: attendees_response.splits option.splits list.splits post_response.splits if_splits)

lemma select_run:
  "run asciiLower (Some (js ''o1'')) (Some (js ''e1'')) (Some (js ''p1'')) select_events (initial_state, [])
     = Some (selected_state, selected_out)"
  by code_simp

text \<open>
  Claim C10. In every state that the page reaches from its initial state, where nothing
  is selected, the selection has no duplicates, and neither has the \<open>userIds\<close> of any
  POST request it has issued. In particular the selection after any sequence of
  toggles from the empty selection has no duplicates: a toggle appends an identifier
  that is absent, and removes every occurrence of one that is present.
\<close>

theorem selection_duplicate_free:
  assumes "run toLowerCase orgId evId photoId evs (initial_state, []) = Some (s, out)"
  shows "distinct (selectedMembers s)
       \<and> (\<forall>url ids. HttpPost url ids \<in> set out \<longrightarrow> distinct ids)
       \<and> distinct (fold toggle uids [])
       \<and> (uid \<notin> set prev \<longrightarrow> toggle uid prev = prev @ [uid])
       \<and> (uid \<in> set prev \<longrightarrow> uid \<notin> set (toggle uid prev))"
proof -
  let ?I = "\<lambda>(t :: page_state) (o1 :: effect list).
              distinct (selectedMembers t) \<and> (\<forall>url ids. HttpPost url ids \<in> set o1 \<longrightarrow> distinct ids)"
  have "?I s out"
  proof (rule run_invariant [OF assms, where I = ?I])
    show "?I initial_state []"
      by (simp add: initial_state_def)
  next
    fix e t o1 t' o2
    assume inv: "?I t o1" and r: "react toLowerCase orgId evId photoId e t = (t', o2)"
    have "distinct (selectedMembers t')"
      using react_selectedMembers [OF r] inv toggle_distinct by auto
    moreover have "distinct ids" if "HttpPost url ids \<in> set o2" for url ids
      using react_posts [OF r that] inv by simp
    ultimately show "?I t' (o1 @ o2)"
      using inv by auto
  qed
  moreover have "distinct (fold toggle uids [])"
    by (simp add: fold_toggle_distinct)
  ultimately show ?thesis
    by (simp add: toggle_def)
qed

theorem selection_duplicate_free_witness:
  "run asciiLower (Some (js ''o1'')) (Some (js ''e1'')) (Some (js ''p1'')) select_events (initial_state, [])
     = Some (selected_state, selected_out)
   \<and> distinct (selectedMembers selected_state)
   \<and> HttpPost (js ''/organizations/o1/events/e1/photos/p1/tags'') [js ''u2'', js ''u3''] \<in> set selected_out
   \<and> distinct [js ''u2'', js ''u3'']
   \<and> fold toggle [js ''u1'', js ''u2'', js ''u1'', js ''u3''] [] = [js ''u2'', js ''u3'']
   \<and> toggle (js ''u3'') [js ''u2''] = [js ''u2'', js ''u3'']
   \<and> toggle (js ''u1'') [js ''u1'', js ''u2''] = [js ''u2'']"
  using selection_duplicate_free [OF select_run, of "[js ''u1'', js ''u2'', js ''u1'', js ''u3'']" "js ''u3''" "[js ''u2'']"]
    selection_duplicate_free [OF select_run, of "[js ''u1'', js ''u2'', js ''u1'', js ''u3'']" "js ''u1''" "[js ''u1'', js ''u2'']"]
    select_run
  by (simp add: selected_state_def selected_out_def toggle_def)

end
